theory Spec2Isabelle
  imports Complex_Main "HOL-Library.Sublist" "HOL-Library.Char_ord" "HOL-Library.List_Lexorder"
begin

section \<open>Text: characters as code points\<close>

text \<open>
  The program is \<^verbatim>\<open>app.py\<close>. Its texts are Python \<^verbatim>\<open>str\<close> values, sequences of code
  points. A text is modelled as a \<open>string\<close> whose characters are read as the code points
  U+0000 .. U+00FF, one \<open>char\<close> per code point, so \<open>length\<close> is Python's \<^verbatim>\<open>len\<close>.
  The character classes below are the ones Python uses on that range:
  \<^verbatim>\<open>str.isspace\<close> (also the class \<^verbatim>\<open>\s\<close> of \<^verbatim>\<open>re\<close> on a \<^verbatim>\<open>str\<close> pattern),
  the class \<^verbatim>\<open>\w\<close> (alphanumeric or underscore), the literal class \<^verbatim>\<open>[a-z]\<close>, and
  \<^verbatim>\<open>str.lower\<close>, which on this range maps each character to one character.
  On this range the whitespace characters are U+0009 .. U+000D, U+001C .. U+0020, U+0085
  and U+00A0. The word characters are the ASCII digits and letters and the underscore,
  the letters U+00AA, U+00B5, U+00BA and U+00C0 .. U+00FF without the two signs U+00D7
  and U+00F7, and the numeric characters U+00B2, U+00B3, U+00B9 and U+00BC .. U+00BE.
  The uppercase letters are \<^verbatim>\<open>A-Z\<close> and U+00C0 .. U+00DE without U+00D7; each stands 32
  below its lowercase letter.
\<close>

definition code :: "char \<Rightarrow> nat" where
  "code c = of_char c"

definition is_space :: "char \<Rightarrow> bool" where
  "is_space c = (let n = code c in
     (9 \<le> n \<and> n \<le> 13) \<or> (28 \<le> n \<and> n \<le> 32) \<or> n = 133 \<or> n = 160)"

definition is_az :: "char \<Rightarrow> bool" where
  "is_az c = (let n = code c in 97 \<le> n \<and> n \<le> 122)"

definition is_word :: "char \<Rightarrow> bool" where
  "is_word c = (let n = code c in
     (48 \<le> n \<and> n \<le> 57) \<or> (65 \<le> n \<and> n \<le> 90) \<or> n = 95 \<or> (97 \<le> n \<and> n \<le> 122)
     \<or> n = 170 \<or> n = 178 \<or> n = 179 \<or> n = 181 \<or> n = 185 \<or> n = 186
     \<or> (188 \<le> n \<and> n \<le> 190) \<or> (192 \<le> n \<and> n \<le> 214) \<or> (216 \<le> n \<and> n \<le> 246)
     \<or> (248 \<le> n \<and> n \<le> 255))"

definition lower_char :: "char \<Rightarrow> char" where
  "lower_char c = (let n = code c in
     if (65 \<le> n \<and> n \<le> 90) \<or> (192 \<le> n \<and> n \<le> 214) \<or> (216 \<le> n \<and> n \<le> 222)
     then char_of (n + 32) else c)"

definition lower :: "string \<Rightarrow> string" where
  "lower text = map lower_char text"

definition strip :: "string \<Rightarrow> string" where
  "strip text = rev (dropWhile is_space (rev (dropWhile is_space text)))"

section \<open>Text normalizer\<close>

subsection \<open>\<^verbatim>\<open>clean_text\<close>\<close>

text \<open>
  \<^verbatim>\<open>re.sub(r'\s+', ' ', text)\<close>: the scan copies a character that is not whitespace and
  replaces a whitespace character together with the whole run that follows it (the
  greedy \<^verbatim>\<open>+\<close>) by one space.
\<close>

function sub_spaces :: "string \<Rightarrow> string" where
  "sub_spaces [] = []"
| "sub_spaces (c # cs) =
     (if is_space c then CHR '' '' # sub_spaces (dropWhile is_space cs)
      else c # sub_spaces cs)"
  by pat_completeness auto
termination
  by (relation "measure length") (auto simp: less_Suc_eq_le length_dropWhile_le)

definition clean_text :: "string \<Rightarrow> string" where
  "clean_text text = lower (sub_spaces text)"

subsection \<open>The pattern of \<^verbatim>\<open>get_keywords\<close>\<close>

text \<open>
  \<^verbatim>\<open>re.findall(r'\b[a-z]{3,}\b', s)\<close>. A position is described by the character before
  it (\<open>None\<close> at the start of the text) and the rest of the text. \<^verbatim>\<open>\b\<close> holds where
  exactly one of the two neighbours is a word character; the ends of the text count as
  not a word character.
\<close>

fun is_word_opt :: "char option \<Rightarrow> bool" where
  "is_word_opt None = False"
| "is_word_opt (Some c) = is_word c"

fun first_char :: "string \<Rightarrow> char option" where
  "first_char [] = None"
| "first_char (c # cs) = Some c"

definition boundary :: "char option \<Rightarrow> string \<Rightarrow> bool" where
  "boundary prev rest = (is_word_opt prev \<noteq> is_word_opt (first_char rest))"

text \<open>
  The tail of the pattern once \<open>acc\<close> has been consumed by the repetition: at least three
  characters, then \<^verbatim>\<open>\b\<close>.
\<close>

definition finish :: "string \<Rightarrow> char option \<Rightarrow> string \<Rightarrow> (string \<times> string) option" where
  "finish acc prev rest = (if 3 \<le> length acc \<and> boundary prev rest then Some (acc, rest) else None)"

text \<open>
  The greedy repetition \<^verbatim>\<open>[a-z]{3,}\<close> with backtracking: take one more character of the
  class when there is one and try the rest of the pattern from there; when that fails,
  give the character back and try to finish here.
\<close>

fun repeat_az :: "string \<Rightarrow> char option \<Rightarrow> string \<Rightarrow> (string \<times> string) option" where
  "repeat_az acc prev [] = finish acc prev []"
| "repeat_az acc prev (c # cs) =
     (if is_az c then
        (case repeat_az (acc @ [c]) (Some c) cs of
           Some r \<Rightarrow> Some r
         | None \<Rightarrow> finish acc prev (c # cs))
      else finish acc prev (c # cs))"

definition match_at :: "char option \<Rightarrow> string \<Rightarrow> (string \<times> string) option" where
  "match_at prev s = (if boundary prev s then repeat_az [] prev s else None)"

definition last_char :: "char option \<Rightarrow> string \<Rightarrow> char option" where
  "last_char prev tok = (case rev tok of [] \<Rightarrow> prev | c # cs \<Rightarrow> Some c)"

lemma repeat_az_splits:
  "repeat_az acc prev s = Some (tok, rest) \<Longrightarrow> acc @ s = tok @ rest \<and> 3 \<le> length tok"
proof (induction s arbitrary: acc prev)
  case Nil
  then show ?case by (auto simp: finish_def split: if_splits)
next
  case (Cons c cs)
  show ?case
  proof (cases "is_az c \<and> repeat_az (acc @ [c]) (Some c) cs \<noteq> None")
    case True
    then have "repeat_az (acc @ [c]) (Some c) cs = Some (tok, rest)"
      using Cons.prems by auto
    from Cons.IH [OF this] show ?thesis by simp
  next
    case False
    then have "finish acc prev (c # cs) = Some (tok, rest)"
      using Cons.prems by (auto split: if_splits option.splits)
    then show ?thesis by (auto simp: finish_def split: if_splits)
  qed
qed

lemma match_at_shorter:
  assumes "match_at prev s = Some (tok, rest)"
  shows "length rest < length s"
proof -
  have "repeat_az [] prev s = Some (tok, rest)"
    using assms by (simp add: match_at_def split: if_splits)
  from repeat_az_splits [OF this] have "length s = length tok + length rest" "3 \<le> length tok"
    by (simp_all flip: length_append)
  then show ?thesis by linarith
qed

text \<open>
  \<^verbatim>\<open>findall\<close> scans from left to right: where the pattern matches, the match is
  recorded and the scan goes on behind it; where it does not, the scan moves on by one
  character. The pattern cannot match the empty string, so the scan ends with the text.
\<close>

function findall :: "char option \<Rightarrow> string \<Rightarrow> string list" where
  "findall prev [] = []"
| "findall prev (c # cs) =
     (case match_at prev (c # cs) of
        Some (tok, rest) \<Rightarrow> tok # findall (last_char prev tok) rest
      | None \<Rightarrow> findall (Some c) cs)"
  by pat_completeness auto
termination
  by (relation "measure (\<lambda>(prev, s). length s)") (auto dest: match_at_shorter)

definition get_keywords :: "string \<Rightarrow> string list" where
  "get_keywords text = findall None (lower text)"

section \<open>Similarity scorer\<close>

text \<open>
  \<^verbatim>\<open>calculate_similarity\<close> hands the two texts to scikit-learn:
  \<^verbatim>\<open>TfidfVectorizer().fit_transform([resume, job_desc])\<close> and then
  \<^verbatim>\<open>cosine_similarity(vecs[0:1], vecs[1:2])[0][0]\<close>. That library is not part of the
  program; it is a parameter \<open>lib\<close> of the model, of type \<open>sklearn\<close>: given the two
  texts it either raises (\<open>Inl\<close>) or returns the cosine (\<open>Inr\<close>). Python floats are read as
  real numbers. What the program does around the library call is modelled in full: the
  guard on blank texts, the scaling by 100 and 1.5, the cap at 95, and the handler that
  reports the exception with \<^verbatim>\<open>st.error\<close> and returns \<^verbatim>\<open>0.0\<close>. The calls that leave
  the function (to the library, to \<^verbatim>\<open>st.error\<close>) are recorded as events, in order.
\<close>

datatype error = ValueError | TypeError | OtherError

type_synonym 'a result = "error + 'a"

type_synonym sklearn = "string \<Rightarrow> string \<Rightarrow> real result"

datatype event = Vectorize string string | St_error error

definition similarity_try :: "sklearn \<Rightarrow> string \<Rightarrow> string \<Rightarrow> real result \<times> event list" where
  "similarity_try lib resume job_desc =
     (if strip resume = [] \<or> strip job_desc = [] then (Inr 0, [])
      else
        (case lib resume job_desc of
           Inl e \<Rightarrow> (Inl e, [Vectorize resume job_desc])
         | Inr c \<Rightarrow>
             (let similarity = c * 100
              in (Inr (min (similarity * 1.5) 95), [Vectorize resume job_desc]))))"

definition calculate_similarity :: "sklearn \<Rightarrow> string \<Rightarrow> string \<Rightarrow> real \<times> event list" where
  "calculate_similarity lib resume job_desc =
     (case similarity_try lib resume job_desc of
        (Inr score, events) \<Rightarrow> (score, events)
      | (Inl e, events) \<Rightarrow> (0, events @ [St_error e]))"

section \<open>Gap analyzer\<close>

definition common_words :: "string set" where
  "common_words = {''the'', ''and'', ''for'', ''with'', ''this'', ''that'', ''have'', ''has''}"

text \<open>
  \<^verbatim>\<open>missing\<close> is a Python \<^verbatim>\<open>set\<close>; the list comprehension iterates over it in an order
  the language does not fix. The order is a parameter \<open>iter\<close> of the model;
  \<open>set_iteration iter\<close> says what every iteration over a set does: it yields each
  element once.
\<close>

type_synonym set_order = "string set \<Rightarrow> string list"

definition set_iteration :: "set_order \<Rightarrow> bool" where
  "set_iteration iter = (\<forall>S. finite S \<longrightarrow> set (iter S) = S \<and> distinct (iter S))"

text \<open>
  \<^verbatim>\<open>Counter(elems)\<close> counts the elements from left to right in a dictionary;
  \<^verbatim>\<open>job_word_counts[word]\<close> is 0 for a key that is absent.
\<close>

definition counter_get :: "(string \<rightharpoonup> nat) \<Rightarrow> string \<Rightarrow> nat" where
  "counter_get m key = (case m key of None \<Rightarrow> 0 | Some n \<Rightarrow> n)"

definition count_elem :: "string \<Rightarrow> (string \<rightharpoonup> nat) \<Rightarrow> (string \<rightharpoonup> nat)" where
  "count_elem elem m = m(elem \<mapsto> counter_get m elem + 1)"

definition counter :: "string list \<Rightarrow> (string \<rightharpoonup> nat)" where
  "counter elems = fold count_elem elems Map.empty"

text \<open>
  \<^verbatim>\<open>sorted(xs, key=..., reverse=True)\<close> is stable: elements with equal keys keep their
  order. That is the stable ascending sort by the negated key.
\<close>

definition sorted_reverse :: "('a \<Rightarrow> nat) \<Rightarrow> 'a list \<Rightarrow> 'a list" where
  "sorted_reverse key xs = sort_key (\<lambda>x. - int (key x)) xs"

text \<open>
  The body of \<^verbatim>\<open>analyze_missing\<close> stands in a \<^verbatim>\<open>try\<close> whose handler returns
  \<^verbatim>\<open>[]\<close>. Nothing in the body raises on two texts, so the model has no such branch.
\<close>

definition analyze_missing :: "set_order \<Rightarrow> string \<Rightarrow> string \<Rightarrow> string list" where
  "analyze_missing iter resume_text job_desc =
     (let resume_words = set (get_keywords resume_text);
          job_words = set (get_keywords job_desc);
          missing = job_words - resume_words - common_words;
          job_word_counts = counter (get_keywords job_desc);
          missing_important =
            take 5 (sorted_reverse snd
              (map (\<lambda>word. (word, counter_get job_word_counts word)) (iter missing)))
      in map fst missing_important)"

section \<open>Suggestion generator\<close>

text \<open>
  Each line the generator can emit is a constructor: the two lines built with an
  f-string carry the joined keywords, the others are fixed texts. In the order of the
  source: \<^verbatim>\<open>Missing keywords: ...\<close>, \<^verbatim>\<open>Add these skills: ... to your skills section\<close>,
  \<^verbatim>\<open>Mention Python projects from coursework\<close>,
  \<^verbatim>\<open>Highlight any CAD projects from mechanical labs\<close>,
  \<^verbatim>\<open>Include any data analysis projects\<close>,
  \<^verbatim>\<open>Frame academic projects as 'pre-internship experience'\<close>,
  \<^verbatim>\<open>Add design projects from engineering graphics\<close>,
  \<^verbatim>\<open>Highlight math/statistics coursework\<close>, and the handler's
  \<^verbatim>\<open>Could not generate specific suggestions\<close>.
\<close>

datatype suggestion =
    Missing_keywords string
  | Add_skills string
  | Python_projects
  | Cad_projects
  | Data_projects
  | Pre_internship
  | Design_projects
  | Math_statistics
  | Could_not_generate

fun join :: "string \<Rightarrow> string list \<Rightarrow> string" where
  "join sep [] = []"
| "join sep [x] = x"
| "join sep (x # y # ys) = x @ sep @ join sep (y # ys)"

text \<open>
  \<^verbatim>\<open>skill_score\<close> is compared with \<^verbatim>\<open>60\<close>. The caller passes a float; a value that
  cannot be compared with a number (\<^verbatim>\<open>None\<close>) makes the comparison raise
  \<^verbatim>\<open>TypeError\<close>, the one operation of the body that can fail.
\<close>

datatype pyval = Float real | NoneType

fun less_than :: "pyval \<Rightarrow> real \<Rightarrow> bool result" where
  "less_than (Float x) k = Inr (x < k)"
| "less_than NoneType k = Inl TypeError"

text \<open>
  The \<^verbatim>\<open>try\<close> block, with the list \<^verbatim>\<open>suggestions\<close> passed from statement to
  statement, and the function with its handler.
\<close>

definition suggestions_try :: "set_order \<Rightarrow> string \<Rightarrow> string \<Rightarrow> pyval \<Rightarrow> suggestion list result" where
  "suggestions_try iter resume_text job_desc skill_score =
     (let suggestions = [];
          missing_keywords = analyze_missing iter resume_text job_desc
      in
        (case
           (if missing_keywords \<noteq> [] then
              (let suggestions = suggestions @ [Missing_keywords (join '', '' missing_keywords)]
               in
                 (case less_than skill_score 60 of
                    Inl e \<Rightarrow> Inl e
                  | Inr below \<Rightarrow>
                      (let suggestions =
                             (if below
                              then suggestions @ [Add_skills (join '', '' (take 3 missing_keywords))]
                              else suggestions);
                           suggestions =
                             (if ''python'' \<in> set missing_keywords
                              then suggestions @ [Python_projects] else suggestions);
                           suggestions =
                             (if ''cad'' \<in> set missing_keywords
                              then suggestions @ [Cad_projects] else suggestions);
                           suggestions =
                             (if ''data'' \<in> set missing_keywords
                              then suggestions @ [Data_projects] else suggestions)
                       in Inr suggestions)))
            else Inr suggestions)
         of
           Inl e \<Rightarrow> Inl e
         | Inr suggestions \<Rightarrow>
             (let job_desc_lower = lower job_desc;
                  suggestions =
                    (if sublist ''intern'' job_desc_lower
                     then suggestions @ [Pre_internship] else suggestions);
                  suggestions =
                    (if sublist ''design'' job_desc_lower
                     then suggestions @ [Design_projects] else suggestions);
                  suggestions =
                    (if sublist ''analysis'' job_desc_lower
                     then suggestions @ [Math_statistics] else suggestions)
              in Inr suggestions)))"

definition generate_tailored_suggestions ::
    "set_order \<Rightarrow> string \<Rightarrow> string \<Rightarrow> pyval \<Rightarrow> suggestion list" where
  "generate_tailored_suggestions iter resume_text job_desc skill_score =
     (case suggestions_try iter resume_text job_desc skill_score of
        Inr suggestions \<Rightarrow> suggestions
      | Inl e \<Rightarrow> [Could_not_generate])"

section \<open>The specification's notions\<close>

text \<open>
  The maximal runs of word characters of a text, from left to right, and the shape of a
  keyword: three or more characters, all of them in \<^verbatim>\<open>a-z\<close>.
\<close>

function word_runs :: "string \<Rightarrow> string list" where
  "word_runs [] = []"
| "word_runs (c # cs) =
     (if is_word c then takeWhile is_word (c # cs) # word_runs (dropWhile is_word cs)
      else word_runs cs)"
  by pat_completeness auto
termination
  by (relation "measure length") (auto simp: less_Suc_eq_le length_dropWhile_le)

definition keyword_shaped :: "string \<Rightarrow> bool" where
  "keyword_shaped w = (3 \<le> length w \<and> list_all is_az w)"

text \<open>
  The keywords as the specification words them: the maximal runs of lowercase ASCII
  letters of the case-folded text that have three or more characters, whatever stands
  next to them.
\<close>

function az_runs :: "string \<Rightarrow> string list" where
  "az_runs [] = []"
| "az_runs (c # cs) =
     (if is_az c then takeWhile is_az (c # cs) # az_runs (dropWhile is_az cs)
      else az_runs cs)"
  by pat_completeness auto
termination
  by (relation "measure length") (auto simp: less_Suc_eq_le length_dropWhile_le)

definition spec_keywords :: "string \<Rightarrow> string list" where
  "spec_keywords text = filter (\<lambda>run. 3 \<le> length run) (az_runs (lower text))"

text \<open>
  The rule chain as the specification lists it: every rule contributes its line or
  nothing, in the fixed order. \<open>below\<close> says that the skill score is under 60.
\<close>

definition spec_rule_chain :: "string list \<Rightarrow> bool \<Rightarrow> string \<Rightarrow> suggestion list" where
  "spec_rule_chain missing below job_desc =
     (if missing \<noteq> [] then [Missing_keywords (join '', '' missing)] else []) @
     (if missing \<noteq> [] \<and> below then [Add_skills (join '', '' (take 3 missing))] else []) @
     (if ''python'' \<in> set missing then [Python_projects] else []) @
     (if ''cad'' \<in> set missing then [Cad_projects] else []) @
     (if ''data'' \<in> set missing then [Data_projects] else []) @
     (if sublist ''intern'' (lower job_desc) then [Pre_internship] else []) @
     (if sublist ''design'' (lower job_desc) then [Design_projects] else []) @
     (if sublist ''analysis'' (lower job_desc) then [Math_statistics] else [])"

section \<open>The library call, modelled from the specification\<close>

text \<open>
  Modelled from the spec: the TF-IDF cosine that \<^verbatim>\<open>calculate_similarity\<close> obtains from
  scikit-learn (\<^verbatim>\<open>TfidfVectorizer\<close>, \<^verbatim>\<open>cosine_similarity\<close>), which is not among the
  program's sources. The specification (section 4.2 and the glossary) describes a TF-IDF
  vector space over the corpus of exactly the two documents, in which a term present in
  one document only weighs more than a term present in both; the cosine of the angle
  between the two vectors; and a failure on a degenerate vocabulary. What it leaves open
  is filled with the library's defaults: a token is a run of two or more word characters
  of the lowercased document, the weight of a term \<open>w\<close> in a corpus of \<open>n\<close> documents is
  \<open>ln ((1 + n) / (1 + df w)) + 1\<close>, and a vector of length 0 has cosine 0 with every
  vector. Numbers are real numbers: the model gives the sign of the cosine, the failure
  on an empty vocabulary, and the cosine of a document with itself, which the library's
  floats miss by rounding only and which the cap of 95 absorbs. It does not give the
  rounding of the library's floats, which depends on the order of the two documents, so
  nothing is drawn from it about the exact equality of two scores. \<open>tfidf_cosine\<close> is
  one value of the parameter \<open>sklearn\<close>.
\<close>

definition tokenize :: "string \<Rightarrow> string list" where
  "tokenize doc = filter (\<lambda>w. 2 \<le> length w) (word_runs (lower doc))"

definition doc_freq :: "string list list \<Rightarrow> string \<Rightarrow> nat" where
  "doc_freq docs w = length (filter (\<lambda>d. w \<in> set d) docs)"

definition idf :: "string list list \<Rightarrow> string \<Rightarrow> real" where
  "idf docs w = ln ((1 + real (length docs)) / (1 + real (doc_freq docs w))) + 1"

definition tfidf :: "string list list \<Rightarrow> string list \<Rightarrow> string \<Rightarrow> real" where
  "tfidf docs d w = real (count_list d w) * idf docs w"

definition dot :: "string set \<Rightarrow> (string \<Rightarrow> real) \<Rightarrow> (string \<Rightarrow> real) \<Rightarrow> real" where
  "dot vocabulary x y = (\<Sum>w \<in> vocabulary. x w * y w)"

definition cosine :: "string set \<Rightarrow> (string \<Rightarrow> real) \<Rightarrow> (string \<Rightarrow> real) \<Rightarrow> real" where
  "cosine vocabulary x y =
     (if dot vocabulary x x = 0 \<or> dot vocabulary y y = 0 then 0
      else dot vocabulary x y / (sqrt (dot vocabulary x x) * sqrt (dot vocabulary y y)))"

definition tfidf_cosine :: sklearn where
  "tfidf_cosine resume job_desc =
     (let docs = [tokenize resume, tokenize job_desc];
          vocabulary = set (tokenize resume) \<union> set (tokenize job_desc)
      in if vocabulary = {} then Inl ValueError
         else Inr (cosine vocabulary (tfidf docs (tokenize resume)) (tfidf docs (tokenize job_desc))))"

section \<open>Properties of the character classes\<close>

lemma az_is_word: "is_az c \<Longrightarrow> is_word c"
  by (simp add: is_az_def is_word_def Let_def)

lemma space_not_word: "is_space c \<Longrightarrow> \<not> is_word c"
  by (auto simp: is_space_def is_word_def Let_def)

lemma code_lower_char:
  "code (lower_char c) =
     (if (65 \<le> code c \<and> code c \<le> 90) \<or> (192 \<le> code c \<and> code c \<le> 214) \<or> (216 \<le> code c \<and> code c \<le> 222)
      then code c + 32 else code c)"
  by (auto simp: lower_char_def code_def Let_def)

lemma lower_char_idem: "lower_char (lower_char c) = lower_char c"
  by (subst (1) lower_char_def) (auto simp: Let_def code_lower_char)

lemma is_space_lower_char: "is_space (lower_char c) = is_space c"
  by (auto simp: is_space_def Let_def code_lower_char)

lemma lower_char_space: "lower_char (CHR '' '') = CHR '' ''"
  by (simp add: lower_char_def code_def)

section \<open>What the pattern matches\<close>

text \<open>
  Backtracking never helps: giving back a character of the run leaves the position
  between two letters, where \<^verbatim>\<open>\b\<close> fails. So the repetition either takes the whole
  run of \<^verbatim>\<open>a-z\<close> or fails.
\<close>

lemma repeat_az_greedy:
  assumes "acc = [] \<or> is_word_opt prev"
  shows "repeat_az acc prev s =
           finish (acc @ takeWhile is_az s) (last_char prev (takeWhile is_az s)) (dropWhile is_az s)"
  using assms
proof (induction s arbitrary: acc prev)
  case Nil
  then show ?case by (simp add: last_char_def)
next
  case (Cons c cs)
  show ?case
  proof (cases "is_az c")
    case False
    then show ?thesis by (simp add: last_char_def)
  next
    case True
    have giveup: "finish acc prev (c # cs) = None"
      using Cons.prems True by (auto simp: finish_def boundary_def az_is_word)
    have lc: "last_char (Some c) (takeWhile is_az cs) = last_char prev (takeWhile is_az (c # cs))"
      using True by (simp add: last_char_def split: list.splits)
    have "repeat_az (acc @ [c]) (Some c) cs =
            finish ((acc @ [c]) @ takeWhile is_az cs) (last_char (Some c) (takeWhile is_az cs)) (dropWhile is_az cs)"
      using True by (intro Cons.IH) (simp add: az_is_word)
    then show ?thesis using True giveup lc
      by (auto simp: finish_def split: option.splits)
  qed
qed

lemma az_run_is_word_run:
  "\<not> is_word_opt (first_char (dropWhile is_az s)) \<Longrightarrow>
     takeWhile is_word s = takeWhile is_az s \<and> dropWhile is_word s = dropWhile is_az s"
proof (induction s)
  case Nil
  then show ?case by simp
next
  case (Cons c cs)
  then show ?case by (cases "is_az c") (auto simp: az_is_word)
qed

lemma word_run_is_az_run:
  "list_all is_az (takeWhile is_word s) \<Longrightarrow>
     takeWhile is_az s = takeWhile is_word s \<and> dropWhile is_az s = dropWhile is_word s"
proof (induction s)
  case Nil
  then show ?case by simp
next
  case (Cons c cs)
  then show ?case by (cases "is_word c") (auto simp: az_is_word)
qed

lemma first_char_dropWhile: "\<not> is_word_opt (first_char (dropWhile is_word s))"
  by (induction s) auto

lemma dropWhile_word_idem: "dropWhile is_word (dropWhile is_word s) = dropWhile is_word s"
  by (induction s) auto

lemma last_char_nonempty: "tok \<noteq> [] \<Longrightarrow> last_char prev tok = Some (last tok)"
  by (cases tok rule: rev_cases) (auto simp: last_char_def)

lemma last_takeWhile_az: "takeWhile is_az s \<noteq> [] \<Longrightarrow> is_az (last (takeWhile is_az s))"
  by (metis last_in_set set_takeWhileD)

lemma last_char_word: "tok \<noteq> [] \<Longrightarrow> is_word (last tok) \<Longrightarrow> is_word_opt (last_char prev tok)"
  by (simp add: last_char_nonempty)

lemma boundary_after_word: "is_word_opt p \<Longrightarrow> boundary p rest = (\<not> is_word_opt (first_char rest))"
  by (simp add: boundary_def)

lemma finish_az_run:
  "finish (takeWhile is_az s) (last_char prev (takeWhile is_az s)) (dropWhile is_az s) =
     (if keyword_shaped (takeWhile is_word s)
      then Some (takeWhile is_word s, dropWhile is_word s) else None)"
proof -
  define run rest where "run = takeWhile is_az s" and "rest = dropWhile is_az s"
  define w where "w = takeWhile is_word s"
  have run_az: "list_all is_az run"
    unfolding run_def list_all_iff using set_takeWhileD by metis
  have after_run: "boundary (last_char prev run) rest = (\<not> is_word_opt (first_char rest))"
    if "3 \<le> length run"
  proof -
    have ne: "run \<noteq> []" using that by auto
    then have "is_az (last run)" unfolding run_def by (rule last_takeWhile_az)
    then have "is_word_opt (last_char prev run)"
      using ne by (intro last_char_word az_is_word)
    then show ?thesis by (rule boundary_after_word)
  qed
  show ?thesis
  proof (cases "keyword_shaped w")
    case True
    then have "list_all is_az (takeWhile is_word s)" and len: "3 \<le> length w"
      by (simp_all add: keyword_shaped_def w_def)
    from word_run_is_az_run [OF this(1)]
    have eq: "run = w" "rest = dropWhile is_word s" by (simp_all add: run_def rest_def w_def)
    have "boundary (last_char prev run) rest"
      using after_run len first_char_dropWhile [of s] by (simp add: eq)
    then have "finish run (last_char prev run) rest = Some (w, dropWhile is_word s)"
      using len by (simp add: finish_def eq)
    then show ?thesis using True by (simp add: run_def rest_def w_def)
  next
    case False
    have "finish run (last_char prev run) rest = None"
    proof (rule ccontr)
      assume "finish run (last_char prev run) rest \<noteq> None"
      then have len: "3 \<le> length run" and b: "boundary (last_char prev run) rest"
        by (auto simp: finish_def split: if_splits)
      then have "\<not> is_word_opt (first_char (dropWhile is_az s))"
        using after_run by (simp add: rest_def)
      from az_run_is_word_run [OF this] have "w = run" by (simp add: w_def run_def)
      then have "keyword_shaped w" using len run_az by (simp add: keyword_shaped_def)
      with False show False by simp
    qed
    then show ?thesis using False by (simp add: run_def rest_def w_def)
  qed
qed

lemma match_at_word_start:
  assumes "\<not> is_word_opt prev" "is_word c"
  shows "match_at prev (c # cs) =
           (if keyword_shaped (takeWhile is_word (c # cs))
            then Some (takeWhile is_word (c # cs), dropWhile is_word (c # cs)) else None)"
proof -
  have "match_at prev (c # cs) = repeat_az [] prev (c # cs)"
    using assms by (simp add: match_at_def boundary_def)
  also have "\<dots> = finish ([] @ takeWhile is_az (c # cs)) (last_char prev (takeWhile is_az (c # cs)))
                      (dropWhile is_az (c # cs))"
    by (rule repeat_az_greedy) simp
  also have "\<dots> = (if keyword_shaped (takeWhile is_word (c # cs))
            then Some (takeWhile is_word (c # cs), dropWhile is_word (c # cs)) else None)"
    unfolding append_Nil by (rule finish_az_run)
  finally show ?thesis .
qed

lemma match_at_no_word_start:
  assumes "is_word_opt prev \<or> \<not> is_word c"
  shows "match_at prev (c # cs) = None"
proof (cases "is_word c")
  case True
  then show ?thesis using assms by (simp add: match_at_def boundary_def)
next
  case False
  then have "\<not> is_az c" using az_is_word by blast
  then show ?thesis by (simp add: match_at_def finish_def)
qed

lemma findall_word_runs:
  "findall prev s =
     filter keyword_shaped (word_runs (if is_word_opt prev then dropWhile is_word s else s))"
proof (induction prev s rule: findall.induct)
  case (1 prev)
  then show ?case by simp
next
  case (2 prev c cs)
  show ?case
  proof (cases "\<not> is_word_opt prev \<and> is_word c")
    case False
    then have m: "match_at prev (c # cs) = None" by (intro match_at_no_word_start) auto
    have "findall prev (c # cs) = findall (Some c) cs" using m by simp
    also have "\<dots> = filter keyword_shaped (word_runs (if is_word c then dropWhile is_word cs else cs))"
      using "2.IH"(1) [OF m] by simp
    finally show ?thesis using False by auto
  next
    case True
    note m = match_at_word_start [of prev c cs, OF conjunct1 [OF True] conjunct2 [OF True]]
    let ?w = "takeWhile is_word (c # cs)"
    show ?thesis
    proof (cases "keyword_shaped ?w")
      case ks: True
      then have m': "match_at prev (c # cs) = Some (?w, dropWhile is_word (c # cs))"
        using m by simp
      have ne: "?w \<noteq> []" using True by simp
      have "is_word (last ?w)" by (metis ne last_in_set set_takeWhileD)
      with ne have lw: "is_word_opt (last_char prev ?w)" by (rule last_char_word)
      have "findall prev (c # cs) = ?w # findall (last_char prev ?w) (dropWhile is_word (c # cs))"
        using m' by simp
      also have "findall (last_char prev ?w) (dropWhile is_word (c # cs)) =
                   filter keyword_shaped (word_runs (dropWhile is_word (c # cs)))"
        using "2.IH"(2) [OF m' refl] lw by (simp add: dropWhile_word_idem del: dropWhile.simps)
      finally show ?thesis using True ks by simp
    next
      case nks: False
      then have m': "match_at prev (c # cs) = None" using m by simp
      have "findall prev (c # cs) = findall (Some c) cs" using m' by simp
      also have "\<dots> = filter keyword_shaped (word_runs (dropWhile is_word cs))"
        using "2.IH"(1) [OF m'] True by simp
      finally show ?thesis using True nks by simp
    qed
  qed
qed

lemma get_keywords_word_runs:
  "get_keywords text = filter keyword_shaped (word_runs (lower text))"
  by (simp add: get_keywords_def findall_word_runs)

lemma az_runs_all_az: "r \<in> set (az_runs s) \<Longrightarrow> list_all is_az r"
proof (induction s rule: az_runs.induct)
  case 1
  then show ?case by simp
next
  case (2 c cs)
  show ?case
  proof (cases "is_az c")
    case True
    then consider "r = takeWhile is_az (c # cs)" | "r \<in> set (az_runs (dropWhile is_az cs))"
      using "2.prems" by auto
    then show ?thesis
    proof cases
      case 1
      then show ?thesis unfolding list_all_iff using set_takeWhileD by metis
    next
      case 2
      then show ?thesis using "2.IH"(1) True by simp
    qed
  next
    case False
    then show ?thesis using 2 by simp
  qed
qed

lemma word_runs_eq_az_runs:
  "list_all (\<lambda>c. is_word c \<longrightarrow> is_az c) s \<Longrightarrow> word_runs s = az_runs s"
proof (induction s rule: word_runs.induct)
  case 1
  then show ?case by simp
next
  case (2 c cs)
  have same: "is_word x = is_az x" if "x \<in> set (c # cs)" for x
    using "2.prems" that az_is_word unfolding list_all_iff by blast
  have tw: "takeWhile is_word cs = takeWhile is_az cs"
    by (rule takeWhile_cong) (simp_all add: same)
  have dw: "dropWhile is_word cs = dropWhile is_az cs"
    by (rule dropWhile_cong) (simp_all add: same)
  show ?case
  proof (cases "is_word c")
    case True
    have "list_all (\<lambda>c. is_word c \<longrightarrow> is_az c) (dropWhile is_word cs)"
      using "2.prems" unfolding list_all_iff by (auto dest: set_dropWhileD)
    then have "word_runs (dropWhile is_word cs) = az_runs (dropWhile is_word cs)"
      using "2.IH"(1) True by simp
    then show ?thesis using True same [of c] by (simp add: tw dw)
  next
    case False
    have "list_all (\<lambda>c. is_word c \<longrightarrow> is_az c) cs" using "2.prems" by simp
    then show ?thesis using False same [of c] "2.IH"(2) by simp
  qed
qed

lemma get_keywords_spec_keywords:
  assumes "list_all (\<lambda>c. is_word c \<longrightarrow> is_az c) (lower text)"
  shows "get_keywords text = spec_keywords text"
proof -
  have "filter keyword_shaped (az_runs (lower text)) =
          filter (\<lambda>run. 3 \<le> length run) (az_runs (lower text))"
    by (rule filter_cong) (simp_all add: keyword_shaped_def az_runs_all_az)
  then show ?thesis
    by (simp add: get_keywords_word_runs spec_keywords_def word_runs_eq_az_runs [OF assms])
qed

section \<open>Properties of the normalizer\<close>

lemma lower_idem: "lower (lower text) = lower text"
  by (simp add: lower_def lower_char_idem)

lemma sub_spaces_keeps_start:
  "s = [] \<or> \<not> is_space (hd s) \<Longrightarrow> dropWhile is_space (sub_spaces s) = sub_spaces s"
  by (cases s) auto

lemma not_space_sub_spaces:
  "dropWhile is_space (sub_spaces (dropWhile is_space s)) = sub_spaces (dropWhile is_space s)"
  by (rule sub_spaces_keeps_start) (metis hd_dropWhile)

lemma sub_spaces_idem: "sub_spaces (sub_spaces s) = sub_spaces s"
proof (induction s rule: sub_spaces.induct)
  case 1
  then show ?case by simp
next
  case (2 c cs)
  show ?case
  proof (cases "is_space c")
    case True
    have sp: "is_space (CHR '' '')" by (simp add: is_space_def code_def)
    show ?thesis using True sp "2.IH"(1) [OF True] by (simp add: not_space_sub_spaces)
  next
    case False
    then show ?thesis using "2.IH"(2) by simp
  qed
qed

lemma dropWhile_space_lower:
  "dropWhile is_space (lower s) = lower (dropWhile is_space s)"
  by (induction s) (auto simp: lower_def is_space_lower_char)

lemma sub_spaces_lower: "sub_spaces (lower s) = lower (sub_spaces s)"
proof (induction s rule: sub_spaces.induct)
  case 1
  then show ?case by (simp add: lower_def)
next
  case (2 c cs)
  show ?case
  proof (cases "is_space c")
    case True
    have "sub_spaces (lower (c # cs)) = CHR '' '' # sub_spaces (dropWhile is_space (lower cs))"
      using True by (simp add: lower_def is_space_lower_char)
    also have "\<dots> = CHR '' '' # lower (sub_spaces (dropWhile is_space cs))"
      using "2.IH"(1) [OF True] by (simp add: dropWhile_space_lower)
    finally show ?thesis using True by (simp add: lower_def lower_char_space)
  next
    case False
    have "sub_spaces (lower (c # cs)) = lower_char c # sub_spaces (lower cs)"
      using False by (simp add: lower_def is_space_lower_char)
    then show ?thesis using False "2.IH"(2) by (simp add: lower_def)
  qed
qed

lemma word_runs_drop_spaces: "word_runs (dropWhile is_space s) = word_runs s"
  by (induction s) (auto simp: space_not_word)

lemma takeWhile_word_sub_spaces: "takeWhile is_word (sub_spaces s) = takeWhile is_word s"
proof (induction s rule: sub_spaces.induct)
  case 1
  then show ?case by simp
next
  case (2 c cs)
  have "\<not> is_word (CHR '' '')" by (simp add: is_word_def code_def)
  then show ?case using 2 by (auto simp: space_not_word)
qed

lemma dropWhile_word_sub_spaces:
  "dropWhile is_word (sub_spaces s) = sub_spaces (dropWhile is_word s)"
proof (induction s rule: sub_spaces.induct)
  case 1
  then show ?case by simp
next
  case (2 c cs)
  have "\<not> is_word (CHR '' '')" by (simp add: is_word_def code_def)
  then show ?case using 2 by (auto simp: space_not_word)
qed

lemma word_runs_sub_spaces: "word_runs (sub_spaces s) = word_runs s"
proof (induction s rule: length_induct)
  case (1 s)
  show ?case
  proof (cases s)
    case Nil
    then show ?thesis by simp
  next
    case (Cons c cs)
    have nw: "\<not> is_word (CHR '' '')" by (simp add: is_word_def code_def)
    consider (space) "is_space c" | (word) "\<not> is_space c" "is_word c"
      | (other) "\<not> is_space c" "\<not> is_word c" by blast
    then show ?thesis
    proof cases
      case space
      have "length (dropWhile is_space cs) < length s"
        using Cons by (simp add: less_Suc_eq_le length_dropWhile_le)
      then have "word_runs (sub_spaces (dropWhile is_space cs)) = word_runs (dropWhile is_space cs)"
        using 1 by blast
      then show ?thesis using Cons space nw
        by (simp add: word_runs_drop_spaces space_not_word)
    next
      case word
      have "length (dropWhile is_word cs) < length s"
        using Cons by (simp add: less_Suc_eq_le length_dropWhile_le)
      then have "word_runs (sub_spaces (dropWhile is_word cs)) = word_runs (dropWhile is_word cs)"
        using 1 by blast
      then show ?thesis using Cons word
        by (simp add: takeWhile_word_sub_spaces dropWhile_word_sub_spaces)
    next
      case other
      have "word_runs (sub_spaces cs) = word_runs cs" using 1 Cons by simp
      then show ?thesis using Cons other by simp
    qed
  qed
qed

section \<open>Properties of the scorer\<close>

lemma all_dropWhile: "(\<forall>x\<in>set (dropWhile P xs). P x) \<longleftrightarrow> (\<forall>x\<in>set xs. P x)"
  by (induction xs) auto

lemma strip_empty_iff: "strip text = [] \<longleftrightarrow> list_all is_space text"
  by (simp add: strip_def list_all_iff dropWhile_eq_Nil_conv all_dropWhile)

lemma similarity_cases:
  "calculate_similarity lib resume job_desc =
     (if list_all is_space resume \<or> list_all is_space job_desc then (0, [])
      else case lib resume job_desc of
             Inl e \<Rightarrow> (0, [Vectorize resume job_desc, St_error e])
           | Inr c \<Rightarrow> (min (c * 150) 95, [Vectorize resume job_desc]))"
  by (auto simp: calculate_similarity_def similarity_try_def strip_empty_iff Let_def split: sum.splits)

section \<open>Properties of the modelled library call\<close>

lemma idf_ge_1: "1 \<le> idf docs w"
proof -
  have "doc_freq docs w \<le> length docs" by (simp add: doc_freq_def)
  then have "1 \<le> (1 + real (length docs)) / (1 + real (doc_freq docs w))"
    by (simp add: le_divide_eq)
  then have "0 \<le> ln ((1 + real (length docs)) / (1 + real (doc_freq docs w)))"
    by (rule ln_ge_zero)
  then show ?thesis by (simp add: idf_def)
qed

lemma tfidf_nonneg: "0 \<le> tfidf docs d w"
  using idf_ge_1 [of docs w] by (simp add: tfidf_def)

lemma tfidf_pos: "w \<in> set d \<Longrightarrow> 0 < tfidf docs d w"
proof -
  assume "w \<in> set d"
  then have "0 < count_list d w" by (metis count_list_0_iff not_gr_zero)
  moreover have "0 < idf docs w" using idf_ge_1 [of docs w] by linarith
  ultimately show ?thesis by (simp add: tfidf_def)
qed

lemma dot_nonneg: "(\<And>t. 0 \<le> x t) \<Longrightarrow> (\<And>t. 0 \<le> y t) \<Longrightarrow> 0 \<le> dot V x y"
  by (simp add: dot_def sum_nonneg)

lemma cosine_nonneg: "(\<And>t. 0 \<le> x t) \<Longrightarrow> (\<And>t. 0 \<le> y t) \<Longrightarrow> 0 \<le> cosine V x y"
  by (simp add: cosine_def dot_nonneg)

lemma tfidf_cosine_nonneg: "tfidf_cosine a b = Inr c \<Longrightarrow> 0 \<le> c"
  by (auto simp: tfidf_cosine_def Let_def cosine_nonneg tfidf_nonneg split: if_splits)

lemma cosine_self: "dot V x x \<noteq> 0 \<Longrightarrow> cosine V x x = 1"
proof -
  assume nz: "dot V x x \<noteq> 0"
  have "0 \<le> dot V x x" by (simp add: dot_def sum_nonneg)
  then have "sqrt (dot V x x) * sqrt (dot V x x) = dot V x x" by simp
  then show ?thesis using nz by (simp add: cosine_def)
qed

lemma dot_self_pos:
  assumes "finite V" "t \<in> V" "x t \<noteq> 0"
  shows "dot V x x \<noteq> 0"
proof -
  have "0 < (\<Sum>w \<in> V. x w * x w)"
    using assms by (intro sum_pos2 [of V t]) (auto simp: zero_less_mult_iff)
  then show ?thesis by (simp add: dot_def)
qed

lemma tfidf_cosine_identical:
  "tfidf_cosine t t = (if tokenize t = [] then Inl ValueError else Inr 1)"
proof (cases "tokenize t")
  case Nil
  then show ?thesis by (simp add: tfidf_cosine_def)
next
  case (Cons w ws)
  let ?d = "tokenize t"
  have "w \<in> set ?d" using Cons by simp
  then have "tfidf [?d, ?d] ?d w \<noteq> 0" using tfidf_pos [of w ?d "[?d, ?d]"] by simp
  then have "dot (set ?d) (tfidf [?d, ?d] ?d) (tfidf [?d, ?d] ?d) \<noteq> 0"
    using \<open>w \<in> set ?d\<close> by (intro dot_self_pos [of _ w]) auto
  then show ?thesis using Cons by (simp add: tfidf_cosine_def Let_def cosine_self)
qed

lemma word_runs_no_word: "list_all (\<lambda>c. \<not> is_word c) s \<Longrightarrow> word_runs s = []"
  by (induction s) auto

lemma tokenize_blank: "list_all is_space t \<Longrightarrow> tokenize t = []"
proof -
  assume "list_all is_space t"
  then have "list_all (\<lambda>c. \<not> is_word c) (lower t)"
    by (auto simp: list_all_iff lower_def is_space_lower_char space_not_word)
  then show ?thesis by (simp add: tokenize_def word_runs_no_word)
qed

lemma score_identical:
  "fst (calculate_similarity tfidf_cosine t t) = (if tokenize t = [] then 0 else 95)"
  using tokenize_blank [of t] by (auto simp: similarity_cases tfidf_cosine_identical)

lemma tfidf_cosine_raises:
  "(tfidf_cosine a b = Inl ValueError) = (tokenize a = [] \<and> tokenize b = [])"
  by (simp add: tfidf_cosine_def Let_def)

section \<open>Properties of the gap analyzer\<close>

lemma counter_get_fold:
  "counter_get (fold count_elem elems m0) w = counter_get m0 w + count_list elems w"
  by (induction elems arbitrary: m0) (auto simp: counter_get_def count_elem_def)

lemma counter_get_counter: "counter_get (counter elems) w = count_list elems w"
  unfolding counter_def counter_get_fold by (simp add: counter_get_def)

lemma analyze_missing_unfold:
  "analyze_missing iter resume_text job_desc =
     map fst (take 5 (sorted_reverse snd
       (map (\<lambda>word. (word, count_list (get_keywords job_desc) word))
         (iter (set (get_keywords job_desc) - set (get_keywords resume_text) - common_words)))))"
  by (simp add: analyze_missing_def Let_def counter_get_counter)

lemma set_sorted_reverse: "set (sorted_reverse key xs) = set xs"
  by (simp add: sorted_reverse_def)

lemma sorted_reverse_descending:
  "sorted_wrt (\<lambda>a b. key b \<le> key a) (sorted_reverse key xs)"
proof -
  have "sorted (map (\<lambda>x. - int (key x)) (sorted_reverse key xs))"
    unfolding sorted_reverse_def by (rule sorted_sort_key)
  then show ?thesis by (simp add: sorted_map)
qed

lemma analyze_missing_props:
  fixes iter resume_text job_desc
  defines "res \<equiv> analyze_missing iter resume_text job_desc"
  assumes "set_iteration iter"
  shows "length res \<le> 5"
    and "set res \<subseteq> set (get_keywords job_desc) - set (get_keywords resume_text) - common_words"
    and "sorted_wrt (\<lambda>a b. count_list (get_keywords job_desc) b \<le> count_list (get_keywords job_desc) a) res"
proof -
  let ?M = "set (get_keywords job_desc) - set (get_keywords resume_text) - common_words"
  let ?cnt = "count_list (get_keywords job_desc)"
  let ?pairs = "map (\<lambda>word. (word, ?cnt word)) (iter ?M)"
  let ?top = "take 5 (sorted_reverse snd ?pairs)"
  have res: "res = map fst ?top" unfolding res_def by (rule analyze_missing_unfold)
  have "finite ?M" by simp
  then have it: "set (iter ?M) = ?M" "distinct (iter ?M)"
    using assms(2) unfolding set_iteration_def by blast+
  show "length res \<le> 5" unfolding res by simp
  have sub: "set ?top \<subseteq> set ?pairs"
    using set_take_subset [of 5 "sorted_reverse snd ?pairs"] by (simp add: set_sorted_reverse)
  then have "fst ` set ?top \<subseteq> fst ` set ?pairs" by blast
  also have "fst ` set ?pairs = ?M" using it(1) by (simp add: image_image)
  finally show "set res \<subseteq> ?M" unfolding res by simp
  have snd_cnt: "snd p = ?cnt (fst p)" if "p \<in> set ?top" for p
    using that sub by auto
  have "sorted_wrt (\<lambda>a b. snd b \<le> snd a) ?top"
    using sorted_reverse_descending [of snd ?pairs] by (rule sorted_wrt_take)
  then have "sorted_wrt (\<lambda>a b. ?cnt (fst b) \<le> ?cnt (fst a)) ?top"
    by (rule sorted_wrt_mono_rel [rotated]) (simp add: snd_cnt)
  then show "sorted_wrt (\<lambda>a b. ?cnt b \<le> ?cnt a) res"
    unfolding res by (simp add: sorted_wrt_map)
qed

lemma analyze_missing_superset:
  assumes "set_iteration iter" "set (get_keywords job_desc) \<subseteq> set (get_keywords resume_text)"
  shows "analyze_missing iter resume_text job_desc = []"
proof -
  have M: "set (get_keywords job_desc) - set (get_keywords resume_text) - common_words = {}"
    using assms(2) by blast
  have "iter {} = []"
    using assms(1) unfolding set_iteration_def by (metis finite.emptyI set_empty)
  then show ?thesis unfolding analyze_missing_unfold M by (simp add: sorted_reverse_def)
qed

lemma set_iteration_sorted: "set_iteration sorted_list_of_set"
  by (simp add: set_iteration_def)

section \<open>Properties of the suggestion generator\<close>

lemma suggestions_try_unfold:
  "suggestions_try iter resume_text job_desc skill_score =
     (let missing = analyze_missing iter resume_text job_desc in
      if missing \<noteq> [] \<and> skill_score = NoneType then Inl TypeError
      else Inr (spec_rule_chain missing (less_than skill_score 60 = Inr True) job_desc))"
  by (cases skill_score) (auto simp: suggestions_try_def spec_rule_chain_def Let_def)

section \<open>The claims\<close>

text \<open>
  C1. For every pair of texts the score returned by \<^verbatim>\<open>calculate_similarity\<close> lies in
  the closed interval from 0 to 95. The upper bound holds whatever the library does; the
  lower bound holds whenever the cosine the library returns for the pair is not
  negative; and the TF-IDF cosine is never negative, so with it both bounds hold for
  every pair.
\<close>

theorem similarity_score_bounds:
  "fst (calculate_similarity lib resume job_desc) \<le> 95
   \<and> ((\<forall>c. lib resume job_desc = Inr c \<longrightarrow> 0 \<le> c) \<longrightarrow>
        0 \<le> fst (calculate_similarity lib resume job_desc))
   \<and> 0 \<le> fst (calculate_similarity tfidf_cosine resume job_desc)"
proof -
  have lower_bound: "0 \<le> fst (calculate_similarity l resume job_desc)"
    if "\<forall>c. l resume job_desc = Inr c \<longrightarrow> 0 \<le> c" for l
    using that by (auto simp: similarity_cases split: sum.splits)
  have "fst (calculate_similarity lib resume job_desc) \<le> 95"
    by (auto simp: similarity_cases split: sum.splits)
  moreover have "0 \<le> fst (calculate_similarity tfidf_cosine resume job_desc)"
    by (rule lower_bound) (simp add: tfidf_cosine_nonneg)
  ultimately show ?thesis using lower_bound [of lib] by blast
qed

theorem similarity_score_bounds_witness:
  "0 \<le> fst (calculate_similarity tfidf_cosine ''Python developer'' ''Python intern'')
   \<and> fst (calculate_similarity tfidf_cosine ''Python developer'' ''Python intern'') \<le> 95"
proof -
  have h: "\<forall>c. tfidf_cosine ''Python developer'' ''Python intern'' = Inr c \<longrightarrow> 0 \<le> c"
    by (simp add: tfidf_cosine_nonneg)
  from similarity_score_bounds [of tfidf_cosine "''Python developer''" "''Python intern''"] h
  show ?thesis by blast
qed

text \<open>
  C2. When either text is empty or consists of whitespace only, the scorer returns 0 and
  makes no call at all: no vectorization is attempted and no warning is shown, whatever
  the library would have done. When the library raises on two texts that are not blank,
  the scorer shows the warning and returns 0. Every exception of the \<^verbatim>\<open>try\<close> block
  ends as the returned value 0, so none reaches the caller.
\<close>

theorem similarity_failure_policy:
  "(list_all is_space resume \<or> list_all is_space job_desc \<longrightarrow>
      calculate_similarity lib resume job_desc = (0, []))
   \<and> (\<not> list_all is_space resume \<and> \<not> list_all is_space job_desc \<longrightarrow>
        (\<forall>e. lib resume job_desc = Inl e \<longrightarrow>
           calculate_similarity lib resume job_desc = (0, [Vectorize resume job_desc, St_error e])))
   \<and> (\<forall>e events. similarity_try lib resume job_desc = (Inl e, events) \<longrightarrow>
        calculate_similarity lib resume job_desc = (0, events @ [St_error e]))"
proof (intro conjI)
  show "list_all is_space resume \<or> list_all is_space job_desc \<longrightarrow>
      calculate_similarity lib resume job_desc = (0, [])"
    by (simp add: similarity_cases)
  show "\<not> list_all is_space resume \<and> \<not> list_all is_space job_desc \<longrightarrow>
        (\<forall>e. lib resume job_desc = Inl e \<longrightarrow>
           calculate_similarity lib resume job_desc = (0, [Vectorize resume job_desc, St_error e]))"
    by (simp add: similarity_cases)
  show "\<forall>e events. similarity_try lib resume job_desc = (Inl e, events) \<longrightarrow>
        calculate_similarity lib resume job_desc = (0, events @ [St_error e])"
    by (simp add: calculate_similarity_def)
qed

theorem similarity_failure_policy_witness:
  "calculate_similarity tfidf_cosine ''   '' ''python'' = (0, [])
   \<and> calculate_similarity tfidf_cosine ''a b'' ''c d'' =
       (0, [Vectorize ''a b'' ''c d'', St_error ValueError])"
proof -
  have blank: "list_all is_space ''   ''"
    by code_simp
  have not_blank: "\<not> list_all is_space ''a b'' \<and> \<not> list_all is_space ''c d''"
    by code_simp
  have "tokenize ''a b'' = [] \<and> tokenize ''c d'' = []"
    by code_simp
  then have raises: "tfidf_cosine ''a b'' ''c d'' = Inl ValueError"
    by (simp only: tfidf_cosine_raises)
  have "calculate_similarity tfidf_cosine ''   '' ''python'' = (0, [])"
    using similarity_failure_policy [of "''   ''" "''python''" tfidf_cosine] blank
    by blast
  moreover have "calculate_similarity tfidf_cosine ''a b'' ''c d'' =
       (0, [Vectorize ''a b'' ''c d'', St_error ValueError])"
    using similarity_failure_policy [of "''a b''" "''c d''" tfidf_cosine] not_blank raises
    by blast
  ultimately show ?thesis by (rule conjI)
qed

text \<open>
  C3, as the specification states it: \<^verbatim>\<open>get_keywords\<close> returns exactly the maximal runs
  of three or more lowercase ASCII letters of the case-folded text, each bounded by
  characters that are not letters. That fails where a run touches a digit or an
  underscore: in \<^verbatim>\<open>abc1 def\<close> the run \<^verbatim>\<open>abc\<close> is bounded by the start of the text and a
  digit, and the pattern's \<^verbatim>\<open>\b\<close> does not hold between a letter and a digit.
\<close>

theorem keywords_digit_neighbour_counterexample:
  "get_keywords ''abc1 def'' = [''def''] \<and> spec_keywords ''abc1 def'' = [''abc'', ''def'']
   \<and> get_keywords ''abc1 def'' \<noteq> spec_keywords ''abc1 def''"
  by code_simp

text \<open>
  C3, amended: \<^verbatim>\<open>get_keywords\<close> returns, from left to right and with duplicates, exactly
  those maximal runs of word characters (letters, digits, underscore) of the case-folded
  text that consist of three or more characters, all in \<^verbatim>\<open>a-z\<close>; that is, the maximal
  runs of \<^verbatim>\<open>a-z\<close> of length three or more that have a character that is not a word
  character, or an end of the text, on either side. No token is shorter than three
  characters, and no token contains a character outside \<^verbatim>\<open>a-z\<close>. On a text whose
  case-folded form has no word character other than \<^verbatim>\<open>a-z\<close> (no digit, no underscore,
  no other letter) these are the runs the specification describes.
\<close>

theorem keywords_word_bounded_runs:
  "get_keywords text = filter keyword_shaped (word_runs (lower text))
   \<and> list_all (\<lambda>tok. 3 \<le> length tok \<and> list_all is_az tok) (get_keywords text)
   \<and> (list_all (\<lambda>c. is_word c \<longrightarrow> is_az c) (lower text) \<longrightarrow>
        get_keywords text = spec_keywords text)"
  using get_keywords_spec_keywords [of "text"]
  by (simp add: get_keywords_word_runs list_all_iff keyword_shaped_def)

theorem keywords_word_bounded_runs_witness:
  "get_keywords ''An x-ray of abc1, CAD_2 and CAD; Data data'' = [''ray'', ''and'', ''cad'', ''data'', ''data'']
   \<and> filter keyword_shaped (word_runs (lower ''An x-ray of abc1, CAD_2 and CAD; Data data'')) =
       [''ray'', ''and'', ''cad'', ''data'', ''data'']
   \<and> list_all (\<lambda>c. is_word c \<longrightarrow> is_az c) (lower ''An x-ray and CAD; Data data'')
   \<and> get_keywords ''An x-ray and CAD; Data data'' = spec_keywords ''An x-ray and CAD; Data data''
   \<and> spec_keywords ''An x-ray and CAD; Data data'' = [''ray'', ''and'', ''cad'', ''data'', ''data'']"
proof -
  have v: "get_keywords ''An x-ray of abc1, CAD_2 and CAD; Data data'' =
             [''ray'', ''and'', ''cad'', ''data'', ''data'']"
    by code_simp
  have h: "list_all (\<lambda>c. is_word c \<longrightarrow> is_az c) (lower ''An x-ray and CAD; Data data'')"
    by code_simp
  have s: "spec_keywords ''An x-ray and CAD; Data data'' = [''ray'', ''and'', ''cad'', ''data'', ''data'']"
    by code_simp
  have a: "filter keyword_shaped (word_runs (lower ''An x-ray of abc1, CAD_2 and CAD; Data data'')) =
       [''ray'', ''and'', ''cad'', ''data'', ''data'']"
    using keywords_word_bounded_runs [of "''An x-ray of abc1, CAD_2 and CAD; Data data''"] v
    by simp
  have b: "get_keywords ''An x-ray and CAD; Data data'' = spec_keywords ''An x-ray and CAD; Data data''"
    using keywords_word_bounded_runs [of "''An x-ray and CAD; Data data''"] h
    by blast
  from v a h b s show ?thesis by (intro conjI)
qed

text \<open>
  C4. For every pair of texts and every order of iteration over the set,
  \<^verbatim>\<open>analyze_missing\<close> returns at most 5 entries; no entry is one of the eight common
  words; every entry is a keyword of the job description and not a keyword of the
  resume; and the entries come in descending order of their number of occurrences among
  the keywords of the job description.
\<close>

theorem analyze_missing_top5:
  assumes "set_iteration iter"
  shows "length (analyze_missing iter resume_text job_desc) \<le> 5
    \<and> (\<forall>w \<in> set (analyze_missing iter resume_text job_desc).
          w \<notin> {''the'', ''and'', ''for'', ''with'', ''this'', ''that'', ''have'', ''has''}
          \<and> w \<in> set (get_keywords job_desc) \<and> w \<notin> set (get_keywords resume_text))
    \<and> sorted_wrt (\<lambda>a b. count_list (get_keywords job_desc) b \<le> count_list (get_keywords job_desc) a)
          (analyze_missing iter resume_text job_desc)"
proof -
  note props = analyze_missing_props [OF assms, where resume_text = resume_text and job_desc = job_desc]
  have "\<forall>w \<in> set (analyze_missing iter resume_text job_desc).
          w \<notin> common_words
          \<and> w \<in> set (get_keywords job_desc) \<and> w \<notin> set (get_keywords resume_text)"
    using props(2) by blast
  then have "\<forall>w \<in> set (analyze_missing iter resume_text job_desc).
          w \<notin> {''the'', ''and'', ''for'', ''with'', ''this'', ''that'', ''have'', ''has''}
          \<and> w \<in> set (get_keywords job_desc) \<and> w \<notin> set (get_keywords resume_text)"
    unfolding common_words_def .
  with props(1) props(3) show ?thesis by (intro conjI)
qed

theorem analyze_missing_top5_witness:
  "set_iteration sorted_list_of_set
   \<and> analyze_missing sorted_list_of_set ''I know CAD''
        ''cad data data python python python the and skills skills skills skills one two two three'' =
       [''skills'', ''python'', ''data'', ''two'', ''one'']
   \<and> length (analyze_missing sorted_list_of_set ''I know CAD''
        ''cad data data python python python the and skills skills skills skills one two two three'') \<le> 5"
proof -
  have v: "analyze_missing sorted_list_of_set ''I know CAD''
        ''cad data data python python python the and skills skills skills skills one two two three'' =
       [''skills'', ''python'', ''data'', ''two'', ''one'']"
    by code_simp
  have "length (analyze_missing sorted_list_of_set ''I know CAD''
        ''cad data data python python python the and skills skills skills skills one two two three'') \<le> 5"
    using analyze_missing_top5 [OF set_iteration_sorted] by (rule conjunct1)
  then show ?thesis using set_iteration_sorted v by blast
qed

text \<open>
  C5. For every resume, job description and skill score, the generator evaluates the
  rules in the fixed order and appends the line of each rule that fires: the line
  listing all missing keywords when there are any; then, when there are any and the
  score is below 60, the line with the first three; then the lines for \<^verbatim>\<open>python\<close>,
  \<^verbatim>\<open>cad\<close> and \<^verbatim>\<open>data\<close> among the missing keywords; then the lines for \<^verbatim>\<open>intern\<close>,
  \<^verbatim>\<open>design\<close> and \<^verbatim>\<open>analysis\<close> occurring in the lowercased job description. When the
  chain fails, which happens exactly when there are missing keywords and the score
  cannot be compared with 60, the result is the single fallback line. The result is
  empty exactly when the chain did not fail and no rule fired.
\<close>

theorem suggestions_rule_chain:
  "generate_tailored_suggestions iter resume_text job_desc skill_score =
     (if isl (suggestions_try iter resume_text job_desc skill_score) then [Could_not_generate]
      else spec_rule_chain (analyze_missing iter resume_text job_desc)
             (less_than skill_score 60 = Inr True) job_desc)
   \<and> isl (suggestions_try iter resume_text job_desc skill_score) =
       (analyze_missing iter resume_text job_desc \<noteq> [] \<and> less_than skill_score 60 = Inl TypeError)
   \<and> (generate_tailored_suggestions iter resume_text job_desc skill_score = []) =
       (\<not> isl (suggestions_try iter resume_text job_desc skill_score) \<and>
        spec_rule_chain (analyze_missing iter resume_text job_desc)
             (less_than skill_score 60 = Inr True) job_desc = [])"
  by (cases skill_score) (auto simp: generate_tailored_suggestions_def suggestions_try_unfold Let_def)

theorem suggestions_rule_chain_witness:
  "generate_tailored_suggestions sorted_list_of_set ''Experienced in Python and data analysis''
      ''Looking for a Python intern with data and design skills'' (Float 25) =
     [Missing_keywords ''design, intern, looking, skills'', Add_skills ''design, intern, looking'',
      Pre_internship, Design_projects]
   \<and> spec_rule_chain [''design'', ''intern'', ''looking'', ''skills''] True
        ''Looking for a Python intern with data and design skills'' =
     [Missing_keywords ''design, intern, looking, skills'', Add_skills ''design, intern, looking'',
      Pre_internship, Design_projects]
   \<and> generate_tailored_suggestions sorted_list_of_set ''Experienced in Python and data analysis''
      ''Looking for a Python intern with data and design skills'' NoneType = [Could_not_generate]"
proof -
  have m: "analyze_missing sorted_list_of_set ''Experienced in Python and data analysis''
      ''Looking for a Python intern with data and design skills'' =
        [''design'', ''intern'', ''looking'', ''skills'']"
    by code_simp
  have r: "spec_rule_chain [''design'', ''intern'', ''looking'', ''skills''] True
        ''Looking for a Python intern with data and design skills'' =
     [Missing_keywords ''design, intern, looking, skills'', Add_skills ''design, intern, looking'',
      Pre_internship, Design_projects]"
    by code_simp
  have a: "generate_tailored_suggestions sorted_list_of_set ''Experienced in Python and data analysis''
      ''Looking for a Python intern with data and design skills'' (Float 25) =
     [Missing_keywords ''design, intern, looking, skills'', Add_skills ''design, intern, looking'',
      Pre_internship, Design_projects]"
    using suggestions_rule_chain [of sorted_list_of_set "''Experienced in Python and data analysis''"
      "''Looking for a Python intern with data and design skills''" "Float 25"]
    by (simp add: m r)
  have b: "generate_tailored_suggestions sorted_list_of_set ''Experienced in Python and data analysis''
      ''Looking for a Python intern with data and design skills'' NoneType = [Could_not_generate]"
    using suggestions_rule_chain [of sorted_list_of_set "''Experienced in Python and data analysis''"
      "''Looking for a Python intern with data and design skills''" NoneType]
    by (simp add: m)
  show ?thesis using a r b by blast
qed

text \<open>
  C6. When every keyword of the job description is a keyword of the resume,
  \<^verbatim>\<open>analyze_missing\<close> returns the empty list, for every order of iteration.
\<close>

theorem missing_empty_when_superset:
  assumes "set_iteration iter"
    and "set (get_keywords job_desc) \<subseteq> set (get_keywords resume_text)"
  shows "analyze_missing iter resume_text job_desc = []"
  using assms by (rule analyze_missing_superset)

theorem missing_empty_when_superset_witness:
  "set (get_keywords ''Data, Python!'') \<subseteq> set (get_keywords ''python data cad'')
   \<and> analyze_missing sorted_list_of_set ''python data cad'' ''Data, Python!'' = []"
proof -
  have h: "set (get_keywords ''Data, Python!'') \<subseteq> set (get_keywords ''python data cad'')"
    by code_simp
  from missing_empty_when_superset [OF set_iteration_sorted h] h show ?thesis by blast
qed

text \<open>
  C8. \<^verbatim>\<open>clean_text\<close> is idempotent: cleaning a cleaned text changes nothing.
\<close>

theorem clean_text_idempotent:
  "clean_text (clean_text x) = clean_text x"
  by (simp add: clean_text_def sub_spaces_lower lower_idem sub_spaces_idem)

theorem clean_text_idempotent_witness:
  "clean_text ''  Hello   World  '' = '' hello world ''
   \<and> clean_text (clean_text ''  Hello   World  '') = '' hello world ''"
proof -
  have v: "clean_text ''  Hello   World  '' = '' hello world ''"
    by code_simp
  from clean_text_idempotent [of "''  Hello   World  ''"] v show ?thesis by simp
qed

text \<open>
  C9, as the specification states it: for a non-empty text \<open>t\<close> used as resume and as job
  description, the score is at the cap of 95, there are no missing keywords and the list
  of suggestions is empty. The list of suggestions is not empty for \<^verbatim>\<open>design\<close>: the
  rules on the job description's text fire whether or not keywords are missing. The
  score of a text of two blanks with itself is 0: the guard returns before the library
  is called. And the score of \<^verbatim>\<open>a b\<close> with itself is 0: the text has no token of two
  or more word characters, the vectorizer fails on the empty vocabulary, and the handler
  returns 0.
\<close>

theorem identical_texts_counterexample:
  "generate_tailored_suggestions sorted_list_of_set ''design'' ''design'' (Float 25) = [Design_projects]
   \<and> fst (calculate_similarity tfidf_cosine ''  '' ''  '') = 0
   \<and> fst (calculate_similarity tfidf_cosine ''a b'' ''a b'') = 0"
proof -
  have s: "generate_tailored_suggestions sorted_list_of_set ''design'' ''design'' (Float 25) =
             [Design_projects]"
    by code_simp
  have b: "list_all is_space ''  ''"
    by code_simp
  have "calculate_similarity tfidf_cosine ''  '' ''  '' = (0, [])"
    unfolding similarity_cases using b by (simp only: simp_thms if_True)
  then have z: "fst (calculate_similarity tfidf_cosine ''  '' ''  '') = 0"
    by simp
  have "tokenize ''a b'' = []"
    by code_simp
  then have n: "fst (calculate_similarity tfidf_cosine ''a b'' ''a b'') = 0"
    by (simp add: score_identical)
  from s z n show ?thesis by (intro conjI)
qed

text \<open>
  C9, amended: for every text \<open>t\<close> used as resume and as job description, there are no
  missing keywords; the suggestions are exactly the lines of the rules on the job
  description's text (\<^verbatim>\<open>intern\<close>, \<^verbatim>\<open>design\<close>, \<^verbatim>\<open>analysis\<close>), so the list is empty exactly
  when the lowercased text contains none of the three words; and the score is at the cap
  of 95 when \<open>t\<close> has a token of the vectorizer (a run of two or more word characters)
  and 0 when it has none, be it a blank text, which the guard answers, or a text such as
  \<^verbatim>\<open>a b\<close>, on which the vectorizer fails.
\<close>

theorem identical_texts:
  assumes "set_iteration iter"
  shows "analyze_missing iter t t = []
    \<and> generate_tailored_suggestions iter t t skill_score =
        (if sublist ''intern'' (lower t) then [Pre_internship] else []) @
        (if sublist ''design'' (lower t) then [Design_projects] else []) @
        (if sublist ''analysis'' (lower t) then [Math_statistics] else [])
    \<and> (generate_tailored_suggestions iter t t skill_score = []) =
        (\<not> sublist ''intern'' (lower t) \<and> \<not> sublist ''design'' (lower t)
         \<and> \<not> sublist ''analysis'' (lower t))
    \<and> fst (calculate_similarity tfidf_cosine t t) = (if tokenize t = [] then 0 else 95)"
proof -
  have m: "analyze_missing iter t t = []"
    using assms by (rule analyze_missing_superset) simp
  have s: "generate_tailored_suggestions iter t t skill_score =
        (if sublist ''intern'' (lower t) then [Pre_internship] else []) @
        (if sublist ''design'' (lower t) then [Design_projects] else []) @
        (if sublist ''analysis'' (lower t) then [Math_statistics] else [])"
    by (simp add: generate_tailored_suggestions_def suggestions_try_unfold m spec_rule_chain_def)
  have e: "(generate_tailored_suggestions iter t t skill_score = []) =
        (\<not> sublist ''intern'' (lower t) \<and> \<not> sublist ''design'' (lower t)
         \<and> \<not> sublist ''analysis'' (lower t))"
    unfolding s by simp
  have c: "fst (calculate_similarity tfidf_cosine t t) = (if tokenize t = [] then 0 else 95)"
    by (rule score_identical)
  from m s e c show ?thesis by (intro conjI)
qed

theorem identical_texts_witness:
  "set_iteration sorted_list_of_set
   \<and> tokenize ''Python developer'' = [''python'', ''developer'']
   \<and> analyze_missing sorted_list_of_set ''Python developer'' ''Python developer'' = []
   \<and> generate_tailored_suggestions sorted_list_of_set ''Python developer'' ''Python developer''
        (Float 25) = []
   \<and> fst (calculate_similarity tfidf_cosine ''Python developer'' ''Python developer'') = 95"
proof -
  have n: "\<not> sublist ''intern'' (lower ''Python developer'')
         \<and> \<not> sublist ''design'' (lower ''Python developer'')
         \<and> \<not> sublist ''analysis'' (lower ''Python developer'')"
    by code_simp
  have k: "tokenize ''Python developer'' = [''python'', ''developer'']"
    by code_simp
  note inst = identical_texts [OF set_iteration_sorted, of "''Python developer''" "Float 25"]
  have a: "analyze_missing sorted_list_of_set ''Python developer'' ''Python developer'' = []"
    using inst by (rule conjunct1)
  have b: "generate_tailored_suggestions sorted_list_of_set ''Python developer'' ''Python developer''
        (Float 25) = []"
    using inst n by blast
  have "fst (calculate_similarity tfidf_cosine ''Python developer'' ''Python developer'') =
          (if tokenize ''Python developer'' = [] then 0 else 95)"
    using inst by blast
  then have c: "fst (calculate_similarity tfidf_cosine ''Python developer'' ''Python developer'') = 95"
    unfolding k by simp
  from set_iteration_sorted k a b c show ?thesis by (intro conjI)
qed

text \<open>
  C10. Keyword extraction is invariant under normalization: the keywords of the cleaned
  text are the keywords of the text.
\<close>

theorem keywords_invariant_under_clean_text:
  "get_keywords (clean_text x) = get_keywords x"
  by (simp add: get_keywords_word_runs clean_text_def lower_idem
        sub_spaces_lower [symmetric] word_runs_sub_spaces)

theorem keywords_invariant_under_clean_text_witness:
  "clean_text (''Python '' @ [CHR 0x09, CHR 0x0A] @ ''and  CAD'') = ''python and cad''
   \<and> get_keywords (''Python '' @ [CHR 0x09, CHR 0x0A] @ ''and  CAD'') = [''python'', ''and'', ''cad'']
   \<and> get_keywords (clean_text (''Python '' @ [CHR 0x09, CHR 0x0A] @ ''and  CAD'')) =
       [''python'', ''and'', ''cad'']"
proof -
  have c: "clean_text (''Python '' @ [CHR 0x09, CHR 0x0A] @ ''and  CAD'') = ''python and cad''"
    by code_simp
  have v: "get_keywords (''Python '' @ [CHR 0x09, CHR 0x0A] @ ''and  CAD'') = [''python'', ''and'', ''cad'']"
    by code_simp
  from keywords_invariant_under_clean_text [of "''Python '' @ [CHR 0x09, CHR 0x0A] @ ''and  CAD''"] v
  have "get_keywords (clean_text (''Python '' @ [CHR 0x09, CHR 0x0A] @ ''and  CAD'')) =
       [''python'', ''and'', ''cad'']"
    by simp
  with c v show ?thesis by (intro conjI)
qed

end
